theory Spec2Isabelle
  imports Complex_Main "HOL-Library.Word" "HOL-Library.Sublist"
begin

unbundle bit_operations_syntax

section \<open>Time\<close>

text \<open>
  An instant is a number of microseconds since the Unix epoch, in UTC (the resolution of
  a PostgreSQL timestamp). Every operation that reads the clock (\<^verbatim>\<open>time.Now()\<close> in Go,
  \<^verbatim>\<open>NOW() AT TIME ZONE 'UTC'\<close> in SQL) takes the current instant as the argument \<open>now\<close>.
  The database session is taken to run in UTC, as the comments of the queries say
  (``all times in UTC'').
\<close>

type_synonym instant = int

abbreviation second :: int where "second \<equiv> 1000000"
abbreviation minute :: int where "minute \<equiv> 60000000"
abbreviation hour :: int where "hour \<equiv> 3600000000"
abbreviation day :: int where "day \<equiv> 86400000000"

section \<open>Errors\<close>

text \<open>
  The Go code builds every error with \<^verbatim>\<open>fmt.Errorf\<close>; one constructor stands for each
  message. \<open>db_error\<close> is what the SQL driver reports.
\<close>

datatype db_error =
    ConnectionLost
  | NoRows
  | UniqueViolation
  | ValueTooLong
  | IntegerOutOfRange

datatype error =
    ExpirationInPast            \<comment> \<open>expiration time cannot be in the past\<close>
  | CodeTooShort                \<comment> \<open>short code must be at least 3 characters long\<close>
  | CodeTooLong                 \<comment> \<open>short code must be at most 20 characters long\<close>
  | CodeBadFormat               \<comment> \<open>short code can only contain letters, numbers, ...\<close>
  | CodeReserved string         \<comment> \<open>short code '...' is reserved and cannot be used\<close>
  | RandomFailed                \<comment> \<open>failed to generate random bytes\<close>
  | AvailabilityCheckFailed error  \<comment> \<open>failed to check short code availability: ...\<close>
  | CodeTaken string            \<comment> \<open>short code '...' is already taken\<close>
  | AttemptsExhausted           \<comment> \<open>failed to generate unique short code after 10 attempts\<close>
  | CreateFailed error          \<comment> \<open>failed to create URL: ... (service)\<close>
  | RepoCreateFailed db_error   \<comment> \<open>failed to create URL: ... (repository)\<close>
  | NotFoundOrExpired           \<comment> \<open>URL not found or expired\<close>
  | RepoFindFailed db_error     \<comment> \<open>failed to find URL: ...\<close>
  | RepoIncrementFailed db_error  \<comment> \<open>failed to increment click count: ...\<close>
  | RepoDeleteFailed db_error   \<comment> \<open>failed to delete URL: ...\<close>
  | DeleteNoRows                \<comment> \<open>URL not found or you don't have permission to delete it\<close>
  | StatsNotFound               \<comment> \<open>URL not found\<close>
  | RepoStatsFailed db_error    \<comment> \<open>failed to get stats: ...\<close>
  | UserIDRequired              \<comment> \<open>user ID required\<close>
  | RepoUpdateFailed db_error   \<comment> \<open>failed to update URL: ...\<close>
  | UpdateNoRows                \<comment> \<open>URL not found or you don't have permission to update it\<close>
  | RepoAnalyticsFailed db_error  \<comment> \<open>failed to get click analytics: ...\<close>

section \<open>The persistent store\<close>

text \<open>
  \<^verbatim>\<open>entities.URL\<close> and the two tables of the migrations. Row identifiers (UUIDs in the
  schema) are drawn from a counter. The flag \<open>online\<close> says whether the database answers:
  when it is off, every statement fails with a driver error. The table \<^verbatim>\<open>users\<close> is left
  out: an owner is the identifier that the token of the request carries, and the user it
  names is taken to exist.
\<close>

record url =
  ID :: nat
  ShortCode :: string
  OriginalURL :: string
  UserID :: "string option"
  ClickCount :: int
  CreatedAt :: instant
  ExpiresAt :: "instant option"

record click =
  url_id :: nat
  clicked_at :: instant

record database =
  online :: bool
  urls :: "url list"
  url_clicks :: "click list"
  next_id :: nat

text \<open>\<^verbatim>\<open>expires_at IS NULL OR expires_at > NOW()\<close>\<close>

definition live :: "instant \<Rightarrow> url \<Rightarrow> bool" where
  "live now r = (case ExpiresAt r of None \<Rightarrow> True | Some e \<Rightarrow> now < e)"

text \<open>\<^verbatim>\<open>WHERE short_code = $1 [AND user_id = $2]\<close>: a NULL owner never equals \<^verbatim>\<open>$2\<close>.\<close>

definition owned :: "string \<Rightarrow> string option \<Rightarrow> url \<Rightarrow> bool" where
  "owned shortCode userID r =
     (ShortCode r = shortCode \<and> (case userID of None \<Rightarrow> True | Some u \<Rightarrow> UserID r = Some u))"

text \<open>
  \<^verbatim>\<open>urlRepository.Create\<close>. The column is \<^verbatim>\<open>short_code VARCHAR(10) UNIQUE NOT NULL\<close>:
  a longer value is refused by the type, a value already in the table (expired or not) by
  the constraint.
\<close>

definition Create ::
  "database \<Rightarrow> instant \<Rightarrow> string \<Rightarrow> string \<Rightarrow> string option \<Rightarrow> instant option
     \<Rightarrow> (error + url) \<times> database" where
  "Create db now shortCode originalURL userID expiresAt =
     (if \<not> online db then (Inl (RepoCreateFailed ConnectionLost), db)
      else if 10 < length shortCode then (Inl (RepoCreateFailed ValueTooLong), db)
      else if \<exists>r \<in> set (urls db). ShortCode r = shortCode
        then (Inl (RepoCreateFailed UniqueViolation), db)
      else
        let row = \<lparr>ID = next_id db, ShortCode = shortCode, OriginalURL = originalURL,
                   UserID = userID, ClickCount = 0, CreatedAt = now, ExpiresAt = expiresAt\<rparr>
        in (Inr row, db\<lparr>urls := urls db @ [row], next_id := next_id db + 1\<rparr>))"

text \<open>\<^verbatim>\<open>urlRepository.FindByShortCode\<close>: only a row that has not expired.\<close>

definition FindByShortCode :: "database \<Rightarrow> instant \<Rightarrow> string \<Rightarrow> error + url" where
  "FindByShortCode db now shortCode =
     (if \<not> online db then Inl (RepoFindFailed ConnectionLost)
      else case find (\<lambda>r. ShortCode r = shortCode \<and> live now r) (urls db) of
             None \<Rightarrow> Inl NotFoundOrExpired
           | Some r \<Rightarrow> Inr r)"

text \<open>
  \<^verbatim>\<open>urlRepository.IncrementClickCount\<close>: three statements, none of which looks at
  \<^verbatim>\<open>expires_at\<close>. \<^verbatim>\<open>click_count\<close> is a 32-bit \<^verbatim>\<open>INTEGER\<close>; PostgreSQL refuses the
  update that would overflow it.
\<close>

definition IncrementClickCount :: "database \<Rightarrow> instant \<Rightarrow> string \<Rightarrow> error option \<times> database" where
  "IncrementClickCount db now shortCode =
     (if \<not> online db then (Some (RepoFindFailed ConnectionLost), db)
      else case find (\<lambda>r. ShortCode r = shortCode) (urls db) of
        None \<Rightarrow> (Some (RepoFindFailed NoRows), db)
      | Some r \<Rightarrow>
          if \<exists>r' \<in> set (urls db). ShortCode r' = shortCode \<and> ClickCount r' = 2147483647
          then (Some (RepoIncrementFailed IntegerOutOfRange), db)
          else (None,
                db\<lparr>urls := map (\<lambda>r'. if ShortCode r' = shortCode
                                       then r'\<lparr>ClickCount := ClickCount r' + 1\<rparr> else r') (urls db),
                   url_clicks := url_clicks db @ [\<lparr>url_id = ID r, clicked_at = now\<rparr>]\<rparr>))"

text \<open>
  \<^verbatim>\<open>urlRepository.Delete\<close>; the rows of \<^verbatim>\<open>url_clicks\<close> go with their link
  (\<^verbatim>\<open>ON DELETE CASCADE\<close>).
\<close>

definition Delete :: "database \<Rightarrow> string \<Rightarrow> string option \<Rightarrow> error option \<times> database" where
  "Delete db shortCode userID =
     (if \<not> online db then (Some (RepoDeleteFailed ConnectionLost), db)
      else
        let gone = filter (owned shortCode userID) (urls db) in
        if gone = [] then (Some DeleteNoRows, db)
        else (None,
              db\<lparr>urls := filter (\<lambda>r. \<not> owned shortCode userID r) (urls db),
                 url_clicks := filter (\<lambda>c. url_id c \<notin> ID ` set gone) (url_clicks db)\<rparr>))"

text \<open>\<^verbatim>\<open>urlRepository.GetStats\<close>: expired rows included.\<close>

definition GetStats :: "database \<Rightarrow> string \<Rightarrow> string option \<Rightarrow> error + url" where
  "GetStats db shortCode userID =
     (if \<not> online db then Inl (RepoStatsFailed ConnectionLost)
      else case find (owned shortCode userID) (urls db) of
             None \<Rightarrow> Inl StatsNotFound
           | Some r \<Rightarrow> Inr r)"

text \<open>\<^verbatim>\<open>urlRepository.UpdateExpiresAt\<close>\<close>

definition repo_UpdateExpiresAt ::
  "database \<Rightarrow> string \<Rightarrow> string option \<Rightarrow> instant option \<Rightarrow> error option \<times> database" where
  "repo_UpdateExpiresAt db shortCode userID expiresAt =
     (case userID of
        None \<Rightarrow> (Some UserIDRequired, db)
      | Some u \<Rightarrow>
          if \<not> online db then (Some (RepoUpdateFailed ConnectionLost), db)
          else if filter (owned shortCode (Some u)) (urls db) = [] then (Some UpdateNoRows, db)
          else (None,
                db\<lparr>urls := map (\<lambda>r. if owned shortCode (Some u) r
                                      then r\<lparr>ExpiresAt := expiresAt\<rparr> else r) (urls db)\<rparr>))"

text \<open>
  What the declaration \<^verbatim>\<open>short_code VARCHAR(10) UNIQUE NOT NULL\<close> guarantees of the
  table at any moment.
\<close>

definition well_formed :: "database \<Rightarrow> bool" where
  "well_formed db =
     (distinct (map ShortCode (urls db)) \<and> (\<forall>r \<in> set (urls db). length (ShortCode r) \<le> 10))"

section \<open>Click analytics\<close>

text \<open>
  \<^verbatim>\<open>urlRepository.GetClickAnalytics\<close>. \<open>time_bucket\<close> is the \<^verbatim>\<open>time_bucket\<close> expression
  of the query chosen by \<^verbatim>\<open>hours\<close>: \<^verbatim>\<open>DATE_TRUNC('hour', t)\<close> is \<open>t - t mod hour\<close>,
  \<^verbatim>\<open>EXTRACT(MINUTE FROM t)\<close> is \<open>t mod hour div minute\<close>, and so on. The rows come back
  grouped by bucket and in ascending order; a bucket without a click has no row.
\<close>

definition time_bucket :: "int \<Rightarrow> instant \<Rightarrow> instant" where
  "time_bucket hours t =
     (if hours \<le> 6 then (t - t mod hour) + 10 * minute * (t mod hour div minute div 10)
      else if hours \<le> 12 then (t - t mod hour) + 30 * minute * (t mod hour div minute div 30)
      else if hours \<le> 24 then t - t mod hour
      else if hours \<le> 72 then (t - t mod day) + 6 * hour * (t mod day div hour div 6)
      else t - t mod day)"

record analytics_row =
  time :: instant
  count :: nat

definition GetClickAnalytics ::
  "database \<Rightarrow> instant \<Rightarrow> nat \<Rightarrow> int \<Rightarrow> error + analytics_row list" where
  "GetClickAnalytics db now urlID hours =
     (if \<not> online db then Inl (RepoAnalyticsFailed ConnectionLost)
      else
        let buckets = map (time_bucket hours \<circ> clicked_at)
              (filter (\<lambda>c. url_id c = urlID \<and> now - hours * hour \<le> clicked_at c) (url_clicks db))
        in Inr (map (\<lambda>b. \<lparr>time = b, count = count_list buckets b\<rparr>) (sort (remdups buckets))))"


section \<open>The cache\<close>

text \<open>
  \<^verbatim>\<open>cache.Cache\<close> over Redis: keys with a value and a time to live. A value is the text
  written by \<^verbatim>\<open>Set\<close> or the JSON object \<^verbatim>\<open>{original_url, expires_at}\<close> written by
  \<^verbatim>\<open>SetJSON\<close>, kept here as its two fields. The flag \<open>up\<close> says whether Redis answers:
  when it is off every call returns an error and changes nothing. The service never looks
  at the error of \<^verbatim>\<open>Set\<close>, \<^verbatim>\<open>SetJSON\<close> or \<^verbatim>\<open>Delete\<close>, so these return the cache only.
\<close>

datatype cache_value = Text string | UrlData string "instant option"

datatype cache_error = CacheDown | KeyNotFound | UnmarshalFailed

record cache_conn =
  up :: bool
  entries :: "string \<rightharpoonup> cache_value \<times> instant"

definition present :: "cache_conn \<Rightarrow> instant \<Rightarrow> string \<Rightarrow> cache_value option" where
  "present c now key =
     (case entries c key of
        None \<Rightarrow> None
      | Some (v, deadline) \<Rightarrow> if now < deadline then Some v else None)"

definition cache_Get :: "cache_conn \<Rightarrow> instant \<Rightarrow> string \<Rightarrow> cache_error + cache_value" where
  "cache_Get c now key =
     (if \<not> up c then Inl CacheDown
      else case present c now key of None \<Rightarrow> Inl KeyNotFound | Some v \<Rightarrow> Inr v)"

definition cache_Exists :: "cache_conn \<Rightarrow> instant \<Rightarrow> string \<Rightarrow> cache_error + bool" where
  "cache_Exists c now key =
     (if \<not> up c then Inl CacheDown else Inr (present c now key \<noteq> None))"

definition cache_Set :: "cache_conn \<Rightarrow> instant \<Rightarrow> string \<Rightarrow> cache_value \<Rightarrow> int \<Rightarrow> cache_conn" where
  "cache_Set c now key v ttl =
     (if \<not> up c then c else c\<lparr>entries := (entries c)(key \<mapsto> (v, now + ttl))\<rparr>)"

definition cache_Delete :: "cache_conn \<Rightarrow> string \<Rightarrow> cache_conn" where
  "cache_Delete c key = (if \<not> up c then c else c\<lparr>entries := (entries c)(key := None)\<rparr>)"

definition cache_GetJSON ::
  "cache_conn \<Rightarrow> instant \<Rightarrow> string \<Rightarrow> cache_error + string \<times> instant option" where
  "cache_GetJSON c now key =
     (case cache_Get c now key of
        Inl e \<Rightarrow> Inl e
      | Inr (Text _) \<Rightarrow> Inl UnmarshalFailed
      | Inr (UrlData originalURL expiresAt) \<Rightarrow> Inr (originalURL, expiresAt))"

section \<open>The URL service\<close>

text \<open>
  \<^verbatim>\<open>urlService\<close>: the repository, the optional cache (\<open>None\<close> is the nil interface) and
  the goroutines started by \<^verbatim>\<open>go func() { ... IncrementClickCount(shortCode) ... }()\<close> that
  have not run yet, each named by its short code.
\<close>

record urlService =
  repo :: database
  cache :: "cache_conn option"
  goroutines :: "string list"

definition NewURLService :: "database \<Rightarrow> cache_conn option \<Rightarrow> urlService" where
  "NewURLService db cacheClient = \<lparr>repo = db, cache = cacheClient, goroutines = []\<rparr>"

definition url_key :: "string \<Rightarrow> string" where
  "url_key shortCode = ''url:'' @ shortCode"

definition exists_key :: "string \<Rightarrow> string" where
  "exists_key shortCode = ''shortcode:exists:'' @ shortCode"

text \<open>\<^verbatim>\<open>if s.cache != nil { s.cache.Set(...) }\<close> and its siblings.\<close>

definition set_cached :: "urlService \<Rightarrow> instant \<Rightarrow> string \<Rightarrow> cache_value \<Rightarrow> int \<Rightarrow> urlService" where
  "set_cached s now key v ttl = s\<lparr>cache := map_option (\<lambda>c. cache_Set c now key v ttl) (cache s)\<rparr>"

definition delete_cached :: "urlService \<Rightarrow> string \<Rightarrow> urlService" where
  "delete_cached s key = s\<lparr>cache := map_option (\<lambda>c. cache_Delete c key) (cache s)\<rparr>"

subsection \<open>Validation of a custom code\<close>

definition reservedCodes :: "string list" where
  "reservedCodes =
     [''admin'', ''api'', ''www'', ''mail'', ''ftp'', ''localhost'', ''health'', ''auth'',
      ''login'', ''register'', ''signin'', ''signup'', ''signout'', ''logout'', ''shorten'',
      ''urls'', ''url'', ''stats'', ''analytics'', ''redirect'']"

text \<open>The character class \<^verbatim>\<open>[a-zA-Z0-9_-]\<close> of the regular expression.\<close>

definition code_char :: "char \<Rightarrow> bool" where
  "code_char c =
     (let n = (of_char c :: nat)
      in (97 \<le> n \<and> n \<le> 122) \<or> (65 \<le> n \<and> n \<le> 90) \<or> (48 \<le> n \<and> n \<le> 57) \<or> n = 95 \<or> n = 45)"

text \<open>
  \<^verbatim>\<open>strings.ToLower\<close> on the bytes of a string: it is only reached after the regular
  expression has matched, where every byte is ASCII.
\<close>

definition lower_char :: "char \<Rightarrow> char" where
  "lower_char c =
     (let n = (of_char c :: nat) in if 65 \<le> n \<and> n \<le> 90 then char_of (n + 32) else c)"

definition ToLower :: "string \<Rightarrow> string" where
  "ToLower s = map lower_char s"

definition validateCustomShortCode :: "string \<Rightarrow> error option" where
  "validateCustomShortCode shortCode =
     (if length shortCode < 3 then Some CodeTooShort
      else if 20 < length shortCode then Some CodeTooLong
      else if \<not> (shortCode \<noteq> [] \<and> list_all code_char shortCode) then Some CodeBadFormat
      else if ToLower shortCode \<in> set reservedCodes then Some (CodeReserved shortCode)
      else None)"

subsection \<open>Whitespace\<close>

text \<open>
  \<^verbatim>\<open>strings.TrimSpace\<close> removes the leading and the trailing white space of a string, as
  Unicode defines it. A Go string is a sequence of bytes holding UTF-8, so a white-space
  character is one of the byte sequences below: the six of ASCII, then U+0085, U+00A0,
  U+1680, U+2000 to U+200A, U+2028, U+2029, U+202F, U+205F and U+3000.
\<close>

definition spaces :: "string list" where
  "spaces =
     [[CHR 0x09], [CHR 0x0A], [CHR 0x0B], [CHR 0x0C], [CHR 0x0D], [CHR 0x20],
      [CHR 0xC2, CHR 0x85], [CHR 0xC2, CHR 0xA0], [CHR 0xE1, CHR 0x9A, CHR 0x80],
      [CHR 0xE2, CHR 0x80, CHR 0x80], [CHR 0xE2, CHR 0x80, CHR 0x81],
      [CHR 0xE2, CHR 0x80, CHR 0x82], [CHR 0xE2, CHR 0x80, CHR 0x83],
      [CHR 0xE2, CHR 0x80, CHR 0x84], [CHR 0xE2, CHR 0x80, CHR 0x85],
      [CHR 0xE2, CHR 0x80, CHR 0x86], [CHR 0xE2, CHR 0x80, CHR 0x87],
      [CHR 0xE2, CHR 0x80, CHR 0x88], [CHR 0xE2, CHR 0x80, CHR 0x89],
      [CHR 0xE2, CHR 0x80, CHR 0x8A],
      [CHR 0xE2, CHR 0x80, CHR 0xA8], [CHR 0xE2, CHR 0x80, CHR 0xA9],
      [CHR 0xE2, CHR 0x80, CHR 0xAF], [CHR 0xE2, CHR 0x81, CHR 0x9F],
      [CHR 0xE3, CHR 0x80, CHR 0x80]]"

text \<open>\<open>strip ws s\<close> removes from the front of \<open>s\<close> every sequence of \<open>ws\<close>, repeatedly.\<close>

function strip :: "string list \<Rightarrow> string \<Rightarrow> string" where
  "strip ws s =
     (case find (\<lambda>w. w \<noteq> [] \<and> prefix w s) ws of
        None \<Rightarrow> s
      | Some w \<Rightarrow> strip ws (drop (length w) s))"
  by pat_completeness auto
termination
proof (relation "measure (\<lambda>(ws, s). length s)")
  show "wf (measure (\<lambda>(ws, s). length s))" by simp
next
  fix ws :: "string list" and s w :: string
  assume "find (\<lambda>w. w \<noteq> [] \<and> prefix w s) ws = Some w"
  then have "w \<noteq> []" and "prefix w s"
    by (auto simp: find_Some_iff)
  then have "s \<noteq> []" by auto
  with \<open>w \<noteq> []\<close> show "((ws, drop (length w) s), (ws, s)) \<in> measure (\<lambda>(ws, s). length s)"
    by simp
qed

declare strip.simps [simp del]

definition TrimSpace :: "string \<Rightarrow> string" where
  "TrimSpace s = rev (strip (map rev spaces) (rev (strip spaces s)))"

subsection \<open>Generation of a code\<close>

text \<open>
  \<^verbatim>\<open>base64.URLEncoding.EncodeToString\<close>: three bytes make a 24-bit value, cut into four
  indices of six bits; a remainder of one or two bytes is padded with \<^verbatim>\<open>=\<close>.
\<close>

type_synonym byte = "8 word"

definition encodeURL :: string where
  "encodeURL = ''ABCDEFGHIJKLMNOPQRSTUVWXYZabcdefghijklmnopqrstuvwxyz0123456789-_''"

definition enc :: "nat \<Rightarrow> char" where
  "enc val = encodeURL ! (val mod 64)"

fun EncodeToString :: "byte list \<Rightarrow> string" where
  "EncodeToString (a # b # c # src) =
     (let val = unat a * 65536 + unat b * 256 + unat c
      in enc (val div 262144) # enc (val div 4096) # enc (val div 64) # enc val
           # EncodeToString src)"
| "EncodeToString [a, b] =
     (let val = unat a * 65536 + unat b * 256
      in [enc (val div 262144), enc (val div 4096), enc (val div 64), CHR ''=''])"
| "EncodeToString [a] =
     (let val = unat a * 65536
      in [enc (val div 262144), enc (val div 4096), CHR ''='', CHR ''=''])"
| "EncodeToString [] = []"

text \<open>
  One call of \<^verbatim>\<open>rand.Read\<close> on a buffer of six bytes: the six bytes, or \<open>None\<close> when
  the read fails. \<^verbatim>\<open>generateShortCode\<close> encodes them and keeps the first eight characters.
\<close>

type_synonym draw = "(byte \<times> byte \<times> byte \<times> byte \<times> byte \<times> byte) option"

definition generateShortCode :: "draw \<Rightarrow> error + string" where
  "generateShortCode d =
     (case d of
        None \<Rightarrow> Inl RandomFailed
      | Some (b0, b1, b2, b3, b4, b5) \<Rightarrow> Inr (take 8 (EncodeToString [b0, b1, b2, b3, b4, b5])))"

subsection \<open>Availability\<close>

text \<open>The first block of \<^verbatim>\<open>checkShortCodeAvailability\<close>: is the code marked as taken?\<close>

definition marked_taken :: "urlService \<Rightarrow> instant \<Rightarrow> string \<Rightarrow> bool" where
  "marked_taken s now shortCode =
     (case cache s of
        None \<Rightarrow> False
      | Some c \<Rightarrow>
          (case cache_Exists c now (exists_key shortCode) of
             Inr True \<Rightarrow>
               (case cache_Get c now (exists_key shortCode) of
                  Inr val \<Rightarrow> val = Text ''taken''
                | Inl _ \<Rightarrow> False)
           | _ \<Rightarrow> False))"

definition checkShortCodeAvailability ::
  "urlService \<Rightarrow> instant \<Rightarrow> string \<Rightarrow> (error + bool) \<times> urlService" where
  "checkShortCodeAvailability s now shortCode =
     (if marked_taken s now shortCode then (Inr False, s)
      else case FindByShortCode (repo s) now shortCode of
        Inl err \<Rightarrow>
          if err = NotFoundOrExpired
          then (Inr True, set_cached s now (exists_key shortCode) (Text ''available'') (30 * second))
          else (Inl err, s)
      | Inr _ \<Rightarrow> (Inr False, set_cached s now (exists_key shortCode) (Text ''taken'') hour))"

subsection \<open>Allocation\<close>

record CreateURLRequest =
  req_URL :: string
  req_ExpiresAt :: "instant option"
  req_ShortCode :: "string option"

record CreateURLResponse =
  resp_ShortCode :: string
  resp_OriginalURL :: string
  resp_ShortURL :: string
  resp_ExpiresAt :: "instant option"
  resp_CreatedAt :: instant

abbreviation (input) maxAttempts :: nat where "maxAttempts \<equiv> 10"

text \<open>
  The loop \<^verbatim>\<open>for i := 0; i < maxAttempts; i++\<close> of \<^verbatim>\<open>CreateShortURL\<close>. \<open>rnd i\<close> is what
  the call of \<^verbatim>\<open>rand.Read\<close> in round \<open>i\<close> gives, \<open>shortCode\<close> the variable of that name.
\<close>

function generateLoop ::
  "urlService \<Rightarrow> instant \<Rightarrow> (nat \<Rightarrow> draw) \<Rightarrow> nat \<Rightarrow> string \<Rightarrow> (error + string) \<times> urlService" where
  "generateLoop s now rnd i shortCode =
     (if i < maxAttempts then
        (case generateShortCode (rnd i) of
           Inl err \<Rightarrow> (Inl err, s)
         | Inr code \<Rightarrow>
             (case checkShortCodeAvailability s now code of
                (Inl err, s') \<Rightarrow> (Inl (AvailabilityCheckFailed err), s')
              | (Inr available, s') \<Rightarrow>
                  if available then (Inr code, s')
                  else if i = maxAttempts - 1 then (Inl AttemptsExhausted, s')
                  else generateLoop s' now rnd (i + 1) code))
      else (Inr shortCode, s))"
  by pat_completeness auto
termination
  by (relation "measure (\<lambda>(s, now, rnd, i, shortCode). maxAttempts - i)") auto

declare generateLoop.simps [simp del]

text \<open>Lines 158 to 203 of the service: the custom code, or a generated one.\<close>

definition chooseShortCode ::
  "urlService \<Rightarrow> instant \<Rightarrow> (nat \<Rightarrow> draw) \<Rightarrow> string option \<Rightarrow> (error + string) \<times> urlService" where
  "chooseShortCode s now rnd requested =
     (case (if requested = Some [] then None else requested) of
        Some given \<Rightarrow>
          let customCode = TrimSpace given in
          (case validateCustomShortCode customCode of
             Some err \<Rightarrow> (Inl err, s)
           | None \<Rightarrow>
               (case checkShortCodeAvailability s now customCode of
                  (Inl err, s') \<Rightarrow> (Inl (AvailabilityCheckFailed err), s')
                | (Inr available, s') \<Rightarrow>
                    if \<not> available then (Inl (CodeTaken customCode), s')
                    else (Inr customCode, s')))
      | None \<Rightarrow> generateLoop s now rnd 0 [])"

text \<open>
  \<^verbatim>\<open>strings.Contains(err.Error(), "unique") || strings.Contains(err.Error(), "duplicate")\<close>:
  the driver's message for a violated unique constraint has both words, its message for a
  value that is too long and a lost connection have neither.
\<close>

fun mentions_unique :: "error \<Rightarrow> bool" where
  "mentions_unique (RepoCreateFailed UniqueViolation) = True"
| "mentions_unique _ = False"

definition CreateShortURL ::
  "urlService \<Rightarrow> instant \<Rightarrow> (nat \<Rightarrow> draw) \<Rightarrow> CreateURLRequest \<Rightarrow> string option \<Rightarrow> string
     \<Rightarrow> (error + CreateURLResponse) \<times> urlService" where
  "CreateShortURL s now rnd req userID baseURL =
     (if (case req_ExpiresAt req of None \<Rightarrow> False | Some e \<Rightarrow> e < now - 2 * second)
      then (Inl ExpirationInPast, s)
      else case chooseShortCode s now rnd (req_ShortCode req) of
        (Inl err, s1) \<Rightarrow> (Inl err, s1)
      | (Inr shortCode, s1) \<Rightarrow>
          (case Create (repo s1) now shortCode (req_URL req) userID (req_ExpiresAt req) of
             (Inl err, db) \<Rightarrow>
               if mentions_unique err
               then (Inl (CodeTaken shortCode),
                     set_cached s1 now (exists_key shortCode) (Text ''taken'') hour)
               else (Inl (CreateFailed err), s1)
           | (Inr row, db) \<Rightarrow>
               (Inr \<lparr>resp_ShortCode = ShortCode row, resp_OriginalURL = OriginalURL row,
                     resp_ShortURL = baseURL @ ''/'' @ ShortCode row,
                     resp_ExpiresAt = ExpiresAt row, resp_CreatedAt = CreatedAt row\<rparr>,
                set_cached
                  (set_cached (s1\<lparr>repo := db\<rparr>) now (exists_key shortCode) (Text ''taken'') hour)
                  now (url_key shortCode) (UrlData (OriginalURL row) (ExpiresAt row)) hour)))"

subsection \<open>Resolution\<close>

text \<open>
  The cache block of \<^verbatim>\<open>GetOriginalURL\<close> (lines 247 to 282): \<open>Some\<close> target when the cached
  resolution is returned, after the goroutine that records the click has been started;
  \<open>None\<close> when the call goes on to the database, after the eviction of an expired entry.
\<close>

definition cachedURL :: "urlService \<Rightarrow> instant \<Rightarrow> string \<Rightarrow> string option \<times> urlService" where
  "cachedURL s now shortCode =
     (case cache s of
        None \<Rightarrow> (None, s)
      | Some c \<Rightarrow>
          (case cache_GetJSON c now (url_key shortCode) of
             Inl _ \<Rightarrow> (None, s)
           | Inr (originalURL, expiresAt) \<Rightarrow>
               if originalURL = [] then (None, s)
               else (case expiresAt of
                       Some e \<Rightarrow>
                         if e < now then (None, delete_cached s (url_key shortCode))
                         else (Some originalURL, s\<lparr>goroutines := goroutines s @ [shortCode]\<rparr>)
                     | None \<Rightarrow>
                         (Some originalURL, s\<lparr>goroutines := goroutines s @ [shortCode]\<rparr>))))"

definition GetOriginalURL :: "urlService \<Rightarrow> instant \<Rightarrow> string \<Rightarrow> (error + string) \<times> urlService" where
  "GetOriginalURL s now shortCode =
     (case cachedURL s now shortCode of
        (Some originalURL, s') \<Rightarrow> (Inr originalURL, s')
      | (None, s') \<Rightarrow>
          (case FindByShortCode (repo s') now shortCode of
             Inl err \<Rightarrow> (Inl err, s')
           | Inr row \<Rightarrow>
               let s1 = set_cached s' now (url_key shortCode)
                          (UrlData (OriginalURL row) (ExpiresAt row)) hour;
                   (logged, db) = IncrementClickCount (repo s1) now shortCode
               in (Inr (OriginalURL row), s1\<lparr>repo := db\<rparr>)))"

text \<open>One started goroutine runs: it increments and only logs a failure.\<close>

definition run_goroutine :: "urlService \<Rightarrow> instant \<Rightarrow> urlService" where
  "run_goroutine s now =
     (case goroutines s of
        [] \<Rightarrow> s
      | shortCode # rest \<Rightarrow>
          s\<lparr>repo := snd (IncrementClickCount (repo s) now shortCode), goroutines := rest\<rparr>)"

subsection \<open>Statistics, deletion, expiry\<close>

record URLStatsResponse =
  stats_ShortCode :: string
  stats_OriginalURL :: string
  stats_ClickCount :: int
  stats_CreatedAt :: instant
  stats_ExpiresAt :: "instant option"

definition GetURLStats :: "urlService \<Rightarrow> string \<Rightarrow> string option \<Rightarrow> error + URLStatsResponse" where
  "GetURLStats s shortCode userID =
     (case GetStats (repo s) shortCode userID of
        Inl err \<Rightarrow> Inl err
      | Inr row \<Rightarrow>
          Inr \<lparr>stats_ShortCode = ShortCode row, stats_OriginalURL = OriginalURL row,
               stats_ClickCount = ClickCount row, stats_CreatedAt = CreatedAt row,
               stats_ExpiresAt = ExpiresAt row\<rparr>)"

definition DeleteURL :: "urlService \<Rightarrow> string \<Rightarrow> string option \<Rightarrow> error option \<times> urlService" where
  "DeleteURL s shortCode userID =
     (case Delete (repo s) shortCode userID of
        (None, db) \<Rightarrow>
          (None, delete_cached (delete_cached (s\<lparr>repo := db\<rparr>) (url_key shortCode))
                   (exists_key shortCode))
      | (Some err, db) \<Rightarrow> (Some err, s\<lparr>repo := db\<rparr>))"

definition UpdateExpiresAt ::
  "urlService \<Rightarrow> instant \<Rightarrow> string \<Rightarrow> string option \<Rightarrow> instant option \<Rightarrow> error option \<times> urlService" where
  "UpdateExpiresAt s now shortCode userID expiresAt =
     (if (case expiresAt of None \<Rightarrow> False | Some e \<Rightarrow> e < now - 2 * second)
      then (Some ExpirationInPast, s)
      else case repo_UpdateExpiresAt (repo s) shortCode userID expiresAt of
             (err, db) \<Rightarrow> (err, s\<lparr>repo := db\<rparr>))"

definition svc_GetClickAnalytics ::
  "urlService \<Rightarrow> instant \<Rightarrow> string \<Rightarrow> string option \<Rightarrow> int \<Rightarrow> error + analytics_row list" where
  "svc_GetClickAnalytics s now shortCode userID hours =
     (case GetStats (repo s) shortCode userID of
        Inl err \<Rightarrow> Inl err
      | Inr row \<Rightarrow> GetClickAnalytics (repo s) now (ID row) hours)"


section \<open>The rate limiter\<close>

text \<open>
  Modelled from the spec: the token bucket itself, \<^verbatim>\<open>rate.NewLimiter\<close> and
  \<^verbatim>\<open>Limiter.Allow\<close> of the package \<^verbatim>\<open>golang.org/x/time/rate\<close>, whose source is not in the
  repository. The specification describes it: a bucket holds \<open>tokensRemaining\<close> (at
  most \<open>burst\<close>) and \<open>lastRefillTime\<close>; a fresh bucket is full; each call adds
  \<open>elapsed * ratePerSecond\<close> tokens, capped at \<open>burst\<close>, then admits and takes one token
  if at least one is there, and denies otherwise. Tokens are rational numbers here, where
  the program has floating-point numbers.
\<close>

record limiter =
  ratePerSecond :: rat
  maxBurst :: int
  tokensRemaining :: rat
  lastRefillTime :: instant

definition NewLimiter :: "rat \<Rightarrow> int \<Rightarrow> instant \<Rightarrow> limiter" where
  "NewLimiter r b now =
     \<lparr>ratePerSecond = r, maxBurst = b, tokensRemaining = of_int b, lastRefillTime = now\<rparr>"

definition Allow :: "limiter \<Rightarrow> instant \<Rightarrow> bool \<times> limiter" where
  "Allow l now =
     (let elapsed = of_int (now - lastRefillTime l) / of_int second;
          refilled = min (of_int (maxBurst l)) (tokensRemaining l + elapsed * ratePerSecond l)
      in if 1 \<le> refilled
         then (True, l\<lparr>tokensRemaining := refilled - 1, lastRefillTime := now\<rparr>)
         else (False, l\<lparr>tokensRemaining := refilled, lastRefillTime := now\<rparr>))"

text \<open>
  \<^verbatim>\<open>RateLimiter\<close>, \<^verbatim>\<open>visitor\<close>, \<^verbatim>\<open>getVisitor\<close> and the decision of \<^verbatim>\<open>LimitMiddleware\<close>,
  from the source. The limiter of a visitor is a pointer in Go, so what \<^verbatim>\<open>Allow\<close> does
  to it is written back into the registry.
\<close>

record visitor =
  limiter :: limiter
  lastSeen :: instant

record RateLimiter =
  visitors :: "string \<rightharpoonup> visitor"
  rate :: rat
  burst :: int

definition NewRateLimiter :: "rat \<Rightarrow> int \<Rightarrow> RateLimiter" where
  "NewRateLimiter rps b = \<lparr>visitors = Map.empty, rate = rps, burst = b\<rparr>"

definition getVisitor :: "RateLimiter \<Rightarrow> instant \<Rightarrow> string \<Rightarrow> limiter \<times> RateLimiter" where
  "getVisitor rl now ip =
     (case visitors rl ip of
        None \<Rightarrow>
          let l = NewLimiter (rate rl) (burst rl) now
          in (l, rl\<lparr>visitors := (visitors rl)(ip \<mapsto> \<lparr>limiter = l, lastSeen = now\<rparr>)\<rparr>)
      | Some v \<Rightarrow> (limiter v, rl\<lparr>visitors := (visitors rl)(ip \<mapsto> v\<lparr>lastSeen := now\<rparr>)\<rparr>))"

text \<open>\<open>True\<close> when the request goes on (\<^verbatim>\<open>c.Next()\<close>), \<open>False\<close> when it is answered 429.\<close>

definition LimitMiddleware :: "RateLimiter \<Rightarrow> instant \<Rightarrow> string \<Rightarrow> bool \<times> RateLimiter" where
  "LimitMiddleware rl now ip =
     (let (l, rl1) = getVisitor rl now ip;
          (allowed, l') = Allow l now
      in (allowed,
          rl1\<lparr>visitors := (visitors rl1)(ip \<mapsto> \<lparr>limiter = l', lastSeen = now\<rparr>)\<rparr>))"

text \<open>One round of \<^verbatim>\<open>cleanupVisitors\<close>.\<close>

definition cleanupVisitors :: "RateLimiter \<Rightarrow> instant \<Rightarrow> RateLimiter" where
  "cleanupVisitors rl now =
     rl\<lparr>visitors := (\<lambda>ip. case visitors rl ip of
                            None \<Rightarrow> None
                          | Some v \<Rightarrow> if 10 * minute < now - lastSeen v then None else Some v)\<rparr>"

text \<open>The requests of one client, at the given instants in turn: the decisions.\<close>

fun requests :: "RateLimiter \<Rightarrow> string \<Rightarrow> instant list \<Rightarrow> bool list" where
  "requests rl ip [] = []"
| "requests rl ip (now # later) =
     (let (allowed, rl') = LimitMiddleware rl now ip in allowed # requests rl' ip later)"

section \<open>Between two calls\<close>





section \<open>A scenario\<close>

text \<open>
  Two users, Alice and Bob, and a service with an empty store and an empty, working
  cache. Alice allocates the custom code \<open>promo\<close> without an expiry at instant 0; one
  second later she sets the expiry of the link to second 5.
\<close>

abbreviation alice :: string where "alice \<equiv> ''3f2b8c1e-7a4d-4e9b-9c65-0d1f2a3b4c5d''"

definition fresh_service :: urlService where
  "fresh_service =
     NewURLService \<lparr>online = True, urls = [], url_clicks = [], next_id = 0\<rparr>
       (Some \<lparr>up = True, entries = Map.empty\<rparr>)"

definition promo_request :: CreateURLRequest where
  "promo_request =
     \<lparr>req_URL = ''https://example.com/a'', req_ExpiresAt = None, req_ShortCode = Some ''promo''\<rparr>"

definition after_create :: urlService where
  "after_create =
     snd (CreateShortURL fresh_service 0 (\<lambda>i. None) promo_request (Some alice) ''https://sho.rt'')"

definition after_update :: urlService where
  "after_update =
     snd (UpdateExpiresAt after_create second ''promo'' (Some alice) (Some (5 * second)))"












section \<open>Analytics: the literal case\<close>




section \<open>The token bucket at two tokens a second and a burst of five\<close>

lemmas limiter_defs = LimitMiddleware_def getVisitor_def NewLimiter_def Allow_def

text \<open>
  Claim C6, as amended. A client without a bucket sends six requests at the instant \<open>t\<close>:
  five are admitted and the sixth is denied. One more request, \<open>d\<close> microseconds later,
  is admitted exactly when \<open>d\<close> is at least half a second; and when \<open>d\<close> is also less
  than a second, it is the only one: a second request at that instant is denied.
\<close>

theorem C6_token_bucket:
  assumes "visitors rl ip = None" and "rate rl = 2" and "burst rl = 5"
  shows "requests rl ip (replicate 6 t) = [True, True, True, True, True, False]
       \<and> requests rl ip (replicate 6 t @ [t + d]) =
           [True, True, True, True, True, False, second \<le> 2 * d]
       \<and> (second \<le> 2 * d \<and> d < second \<longrightarrow>
            requests rl ip (replicate 6 t @ [t + d, t + d]) =
              [True, True, True, True, True, False, True, False])"
  using assms
  by (simp add: limiter_defs Let_def numeral_eq_Suc)

theorem C6_token_bucket_witness:
  "requests (NewRateLimiter 2 5) ''10.0.0.7'' (replicate 6 0) =
     [True, True, True, True, True, False]
   \<and> requests (NewRateLimiter 2 5) ''10.0.0.7'' (replicate 6 0 @ [500000, 500000]) =
     [True, True, True, True, True, False, True, False]"
  using C6_token_bucket [of "NewRateLimiter 2 5" "''10.0.0.7''" 0 500000]
  by (simp add: NewRateLimiter_def)

text \<open>
  The claim as it was stated fails a full second after the burst: two tokens have come
  back by then, and two further requests are admitted, not exactly one.
\<close>

theorem C6_two_admits_after_one_second:
  "requests (NewRateLimiter 2 5) ''10.0.0.7'' (replicate 6 0 @ [second, second]) =
     [True, True, True, True, True, False, True, True]"
  by (simp add: limiter_defs NewRateLimiter_def Let_def numeral_eq_Suc)

section \<open>A cache that is down, and no cache\<close>

lemma set_cached_nil: "cache s = None \<Longrightarrow> set_cached s now key v ttl = s"
  by (simp add: set_cached_def)

lemma marked_taken_nil: "cache s = None \<Longrightarrow> \<not> marked_taken s now shortCode"
  by (simp add: marked_taken_def)

lemma marked_taken_down: "\<not> up c \<Longrightarrow> \<not> marked_taken (s\<lparr>cache := Some c\<rparr>) now shortCode"
  by (simp add: marked_taken_def cache_Exists_def)

lemma check_nil:
  "cache s = None \<Longrightarrow> snd (checkShortCodeAvailability s now shortCode) = s"
  by (simp add: checkShortCodeAvailability_def marked_taken_nil set_cached_nil
           split: sum.split)

lemma check_down:
  assumes "\<not> up c" and "cache s = None"
  shows "checkShortCodeAvailability (s\<lparr>cache := Some c\<rparr>) now shortCode =
           (fst (checkShortCodeAvailability s now shortCode), s\<lparr>cache := Some c\<rparr>)"
  using assms
  by (simp add: checkShortCodeAvailability_def marked_taken_nil marked_taken_down
        set_cached_def cache_Set_def split: sum.split)

lemma generateLoop_nil:
  "cache s = None \<Longrightarrow> snd (generateLoop s now rnd i shortCode) = s"
proof (induction s now rnd i shortCode rule: generateLoop.induct)
  case (1 s now rnd i shortCode)
  show ?case
  proof (cases "i < maxAttempts")
    case False
    then show ?thesis by (subst generateLoop.simps) simp
  next
    case True
    show ?thesis
    proof (cases "generateShortCode (rnd i)")
      case (Inl err)
      with True show ?thesis by (subst generateLoop.simps) simp
    next
      case (Inr code)
      obtain r where chk: "checkShortCodeAvailability s now code = (r, s)"
        using check_nil [OF "1.prems", of now code] by (cases "checkShortCodeAvailability s now code") simp
      show ?thesis
      proof (cases r)
        case (Inl err)
        with True Inr chk show ?thesis by (subst generateLoop.simps) simp
      next
        case (Inr available)
        with True \<open>generateShortCode (rnd i) = Inr code\<close> chk "1.IH" "1.prems"
        show ?thesis by (subst generateLoop.simps) auto
      qed
    qed
  qed
qed

lemma generateLoop_down:
  assumes "\<not> up c" and "cache s = None"
  shows "generateLoop (s\<lparr>cache := Some c\<rparr>) now rnd i shortCode =
           (fst (generateLoop s now rnd i shortCode), s\<lparr>cache := Some c\<rparr>)"
  using assms(2)
proof (induction s now rnd i shortCode rule: generateLoop.induct)
  case (1 s now rnd i shortCode)
  note nil = \<open>cache s = None\<close>
  show ?case
  proof (cases "i < maxAttempts")
    case False
    then show ?thesis 
      by (subst generateLoop.simps, subst (2) generateLoop.simps) simp
  next
    case True
    show ?thesis
    proof (cases "generateShortCode (rnd i)")
      case (Inl err)
      with True show ?thesis 
        by (subst generateLoop.simps, subst (2) generateLoop.simps) simp
    next
      case (Inr code)
      obtain r where chk: "checkShortCodeAvailability s now code = (r, s)"
        using check_nil [OF nil, of now code] by (cases "checkShortCodeAvailability s now code") simp
      have chk': "checkShortCodeAvailability (s\<lparr>cache := Some c\<rparr>) now code = (r, s\<lparr>cache := Some c\<rparr>)"
        using check_down [OF assms(1) nil, of now code] chk by simp
      show ?thesis
      proof (cases r)
        case (Inl err)
        with True Inr chk chk' show ?thesis 
          by (subst generateLoop.simps, subst (2) generateLoop.simps) simp
      next
        case (Inr available)
        with True \<open>generateShortCode (rnd i) = Inr code\<close> chk chk' "1.IH" nil
        show ?thesis 
          by (subst generateLoop.simps, subst (2) generateLoop.simps) auto
      qed
    qed
  qed
qed


lemma chooseShortCode_custom:
  "given \<noteq> [] \<Longrightarrow>
   chooseShortCode s now rnd (Some given) =
     (case validateCustomShortCode (TrimSpace given) of
        Some err \<Rightarrow> (Inl err, s)
      | None \<Rightarrow>
          (case checkShortCodeAvailability s now (TrimSpace given) of
             (Inl err, s') \<Rightarrow> (Inl (AvailabilityCheckFailed err), s')
           | (Inr available, s') \<Rightarrow>
               if \<not> available then (Inl (CodeTaken (TrimSpace given)), s')
               else (Inr (TrimSpace given), s')))"
  by (simp add: chooseShortCode_def Let_def)

lemma chooseShortCode_generated:
  "requested = None \<or> requested = Some [] \<Longrightarrow>
   chooseShortCode s now rnd requested = generateLoop s now rnd 0 []"
  by (auto simp: chooseShortCode_def)

lemma chooseShortCode_down:
  assumes "\<not> up c" and "cache s = None"
  shows "chooseShortCode (s\<lparr>cache := Some c\<rparr>) now rnd requested =
           (fst (chooseShortCode s now rnd requested), s\<lparr>cache := Some c\<rparr>)"
proof (cases "requested = None \<or> requested = Some []")
  case True
  then show ?thesis
    by (simp only: chooseShortCode_generated generateLoop_down [OF assms])
next
  case False
  then obtain given where given: "requested = Some given" "given \<noteq> []"
    by (cases requested) auto
  obtain r where chk: "checkShortCodeAvailability s now (TrimSpace given) = (r, s)"
    using check_nil [OF assms(2), of now "TrimSpace given"]
    by (cases "checkShortCodeAvailability s now (TrimSpace given)") simp
  have chk': "checkShortCodeAvailability (s\<lparr>cache := Some c\<rparr>) now (TrimSpace given) =
                (r, s\<lparr>cache := Some c\<rparr>)"
    using check_down [OF assms, of now "TrimSpace given"] chk by simp
  show ?thesis
    by (simp add: given chooseShortCode_custom chk chk' split: option.split sum.split)
qed

lemma chooseShortCode_nil:
  assumes "cache s = None"
  shows "snd (chooseShortCode s now rnd requested) = s"
proof (cases "requested = None \<or> requested = Some []")
  case True
  then show ?thesis
    by (simp only: chooseShortCode_generated generateLoop_nil [OF assms])
next
  case False
  then obtain given where given: "requested = Some given" "given \<noteq> []"
    by (cases requested) auto
  obtain r where chk: "checkShortCodeAvailability s now (TrimSpace given) = (r, s)"
    using check_nil [OF assms, of now "TrimSpace given"]
    by (cases "checkShortCodeAvailability s now (TrimSpace given)") simp
  show ?thesis
    by (simp add: given chooseShortCode_custom chk split: option.split sum.split)
qed

lemma CreateShortURL_down:
  assumes "\<not> up c" and "cache s = None"
  shows "CreateShortURL (s\<lparr>cache := Some c\<rparr>) now rnd req userID baseURL =
           apsnd (\<lambda>s'. s'\<lparr>cache := Some c\<rparr>) (CreateShortURL s now rnd req userID baseURL)"
proof -
  obtain r where pick: "chooseShortCode s now rnd (req_ShortCode req) = (r, s)"
    using chooseShortCode_nil [OF assms(2), of now rnd "req_ShortCode req"]
    by (cases "chooseShortCode s now rnd (req_ShortCode req)") simp
  have pick': "chooseShortCode (s\<lparr>cache := Some c\<rparr>) now rnd (req_ShortCode req) =
                 (r, s\<lparr>cache := Some c\<rparr>)"
    using chooseShortCode_down [OF assms, of now rnd "req_ShortCode req"] pick by simp
  have down: "set_cached (s\<lparr>cache := Some c, repo := db\<rparr>) t k v ttl = s\<lparr>cache := Some c, repo := db\<rparr>"
    for db t k v ttl
    using assms(1) by (simp add: set_cached_def cache_Set_def)
  have down': "set_cached (s\<lparr>cache := Some c\<rparr>) t k v ttl = s\<lparr>cache := Some c\<rparr>"
    for t k v ttl
    using assms(1) by (simp add: set_cached_def cache_Set_def)
  have nil: "set_cached (s\<lparr>repo := db\<rparr>) t k v ttl = s\<lparr>repo := db\<rparr>" for db t k v ttl
    using assms(2) by (simp add: set_cached_def)
  show ?thesis
  proof (cases r)
    case (Inl err)
    then show ?thesis by (simp add: CreateShortURL_def pick pick')
  next
    case (Inr shortCode)
    obtain res db where cr:
      "Create (repo s) now shortCode (req_URL req) userID (req_ExpiresAt req) = (res, db)"
      by (cases "Create (repo s) now shortCode (req_URL req) userID (req_ExpiresAt req)")
    show ?thesis
      using assms(2)
      by (cases res) (simp_all add: CreateShortURL_def pick pick' Inr cr down down' nil set_cached_nil)
  qed
qed

lemma cachedURL_nil: "cache s = None \<Longrightarrow> cachedURL s now shortCode = (None, s)"
  by (simp add: cachedURL_def)

lemma cachedURL_down:
  "\<not> up c \<Longrightarrow> cachedURL (s\<lparr>cache := Some c\<rparr>) now shortCode = (None, s\<lparr>cache := Some c\<rparr>)"
  by (simp add: cachedURL_def cache_GetJSON_def cache_Get_def)

lemma GetOriginalURL_down:
  assumes "\<not> up c" and "cache s = None"
  shows "GetOriginalURL (s\<lparr>cache := Some c\<rparr>) now shortCode =
           apsnd (\<lambda>s'. s'\<lparr>cache := Some c\<rparr>) (GetOriginalURL s now shortCode)"
  using assms
  by (simp add: GetOriginalURL_def cachedURL_nil cachedURL_down set_cached_def cache_Set_def
        split: sum.split prod.split)

lemma DeleteURL_down:
  assumes "\<not> up c" and "cache s = None"
  shows "DeleteURL (s\<lparr>cache := Some c\<rparr>) shortCode userID =
           apsnd (\<lambda>s'. s'\<lparr>cache := Some c\<rparr>) (DeleteURL s shortCode userID)"
  using assms
  by (simp add: DeleteURL_def delete_cached_def cache_Delete_def
        split: option.split prod.split)

lemma UpdateExpiresAt_down:
  "UpdateExpiresAt (s\<lparr>cache := Some c\<rparr>) now shortCode userID expiresAt =
     apsnd (\<lambda>s'. s'\<lparr>cache := Some c\<rparr>) (UpdateExpiresAt s now shortCode userID expiresAt)"
  by (simp add: UpdateExpiresAt_def split: prod.split)

text \<open>
  Claim C7. Take a service without a cache and the same service with a cache whose every
  call fails. Allocation, resolution, statistics, deletion and the update of the expiry
  give the same result in both, and leave the same store and the same started goroutines:
  the second state is the first with the failing cache put back in.
\<close>

theorem C7_failing_cache_is_no_cache:
  assumes "\<not> up c" and "cache s = None"
  shows "CreateShortURL (s\<lparr>cache := Some c\<rparr>) now rnd req userID baseURL =
           apsnd (\<lambda>s'. s'\<lparr>cache := Some c\<rparr>) (CreateShortURL s now rnd req userID baseURL)
       \<and> GetOriginalURL (s\<lparr>cache := Some c\<rparr>) now shortCode =
           apsnd (\<lambda>s'. s'\<lparr>cache := Some c\<rparr>) (GetOriginalURL s now shortCode)
       \<and> GetURLStats (s\<lparr>cache := Some c\<rparr>) shortCode userID = GetURLStats s shortCode userID
       \<and> DeleteURL (s\<lparr>cache := Some c\<rparr>) shortCode userID =
           apsnd (\<lambda>s'. s'\<lparr>cache := Some c\<rparr>) (DeleteURL s shortCode userID)
       \<and> UpdateExpiresAt (s\<lparr>cache := Some c\<rparr>) now shortCode userID expiresAt =
           apsnd (\<lambda>s'. s'\<lparr>cache := Some c\<rparr>) (UpdateExpiresAt s now shortCode userID expiresAt)"
  using assms
  by (simp add: CreateShortURL_down GetOriginalURL_down DeleteURL_down UpdateExpiresAt_down
        GetURLStats_def)

theorem C7_failing_cache_is_no_cache_witness:
  "GetOriginalURL
     (NewURLService \<lparr>online = True, urls = [], url_clicks = [], next_id = 0\<rparr>
        (Some \<lparr>up = False, entries = Map.empty\<rparr>)) 0 ''abc'' =
   apsnd (\<lambda>s'. s'\<lparr>cache := Some \<lparr>up = False, entries = Map.empty\<rparr>\<rparr>)
     (GetOriginalURL
        (NewURLService \<lparr>online = True, urls = [], url_clicks = [], next_id = 0\<rparr> None)
        0 ''abc'')"
  using C7_failing_cache_is_no_cache [of "\<lparr>up = False, entries = Map.empty\<rparr>"
      "NewURLService \<lparr>online = True, urls = [], url_clicks = [], next_id = 0\<rparr> None"
      0 "\<lambda>i. None" "\<lparr>req_URL = [], req_ExpiresAt = None, req_ShortCode = None\<rparr>"
      None "[]" "''abc''" None]
  by (simp add: NewURLService_def)


section \<open>The scenario, step by step\<close>

lemma trim_promo: "TrimSpace ''promo'' = ''promo''"
  by (simp add: TrimSpace_def spaces_def strip.simps)

lemma valid_promo: "validateCustomShortCode ''promo'' = None"
  by (simp add: validateCustomShortCode_def code_char_def reservedCodes_def ToLower_def lower_char_def)

lemma cache_keys [simp]:
  "url_key a = url_key b \<longleftrightarrow> a = b"
  "exists_key a = exists_key b \<longleftrightarrow> a = b"
  "url_key a \<noteq> exists_key b"
  "exists_key b \<noteq> url_key a"
  by (simp_all add: url_key_def exists_key_def)

lemmas cache_defs = set_cached_def delete_cached_def cache_Set_def cache_Delete_def cache_Get_def
  cache_Exists_def cache_GetJSON_def present_def


lemma check_fresh:
  "checkShortCodeAvailability fresh_service now ''promo'' =
     (Inr True, fresh_service\<lparr>cache := Some \<lparr>up = True,
         entries = [exists_key ''promo'' \<mapsto> (Text ''available'', now + 30 * second)]\<rparr>\<rparr>)"
  by (simp add: fresh_service_def NewURLService_def checkShortCodeAvailability_def
        marked_taken_def FindByShortCode_def cache_defs)

lemma choose_fresh:
  "chooseShortCode fresh_service now rnd (Some ''promo'') =
     (Inr ''promo'', fresh_service\<lparr>cache := Some \<lparr>up = True,
         entries = [exists_key ''promo'' \<mapsto> (Text ''available'', now + 30 * second)]\<rparr>\<rparr>)"
  by (simp add: chooseShortCode_def trim_promo valid_promo check_fresh Let_def)

lemma create_fresh:
  assumes "case e of None \<Rightarrow> True | Some x \<Rightarrow> now - 2 * second \<le> x"
  shows "CreateShortURL fresh_service now rnd
           \<lparr>req_URL = u, req_ExpiresAt = e, req_ShortCode = Some ''promo''\<rparr> userID baseURL =
         (Inr \<lparr>resp_ShortCode = ''promo'', resp_OriginalURL = u,
               resp_ShortURL = baseURL @ ''/promo'', resp_ExpiresAt = e, resp_CreatedAt = now\<rparr>,
          \<lparr>repo = \<lparr>online = True,
                   urls = [\<lparr>ID = 0, ShortCode = ''promo'', OriginalURL = u, UserID = userID,
                            ClickCount = 0, CreatedAt = now, ExpiresAt = e\<rparr>],
                   url_clicks = [], next_id = 1\<rparr>,
           cache = Some \<lparr>up = True,
                         entries = [exists_key ''promo'' \<mapsto> (Text ''taken'', now + hour),
                                    url_key ''promo'' \<mapsto> (UrlData u e, now + hour)]\<rparr>,
           goroutines = []\<rparr>)"
proof -
  have ok: "\<not> (case e of None \<Rightarrow> False | Some x \<Rightarrow> x < now - 2 * second)"
    using assms by (simp split: option.splits)
  show ?thesis
    using ok
    by (simp add: CreateShortURL_def choose_fresh)
       (simp add: fresh_service_def NewURLService_def Create_def cache_defs Let_def)
qed

lemma after_create_eq:
  "after_create =
     \<lparr>repo = \<lparr>online = True,
              urls = [\<lparr>ID = 0, ShortCode = ''promo'', OriginalURL = ''https://example.com/a'',
                       UserID = Some alice, ClickCount = 0, CreatedAt = 0, ExpiresAt = None\<rparr>],
              url_clicks = [], next_id = 1\<rparr>,
      cache = Some \<lparr>up = True,
                    entries = [exists_key ''promo'' \<mapsto> (Text ''taken'', hour),
                               url_key ''promo'' \<mapsto> (UrlData ''https://example.com/a'' None, hour)]\<rparr>,
      goroutines = []\<rparr>"
  by (simp add: after_create_def promo_request_def create_fresh)

lemma after_update_eq:
  "UpdateExpiresAt after_create second ''promo'' (Some alice) (Some (5 * second)) =
     (None,
      \<lparr>repo = \<lparr>online = True,
              urls = [\<lparr>ID = 0, ShortCode = ''promo'', OriginalURL = ''https://example.com/a'',
                       UserID = Some alice, ClickCount = 0, CreatedAt = 0,
                       ExpiresAt = Some (5 * second)\<rparr>],
              url_clicks = [], next_id = 1\<rparr>,
      cache = Some \<lparr>up = True,
                    entries = [exists_key ''promo'' \<mapsto> (Text ''taken'', hour),
                               url_key ''promo'' \<mapsto> (UrlData ''https://example.com/a'' None, hour)]\<rparr>,
      goroutines = []\<rparr>)"
  by (simp add: after_create_eq UpdateExpiresAt_def repo_UpdateExpiresAt_def owned_def)

lemma UpdateExpiresAt_cache:
  "cache (snd (UpdateExpiresAt s now shortCode userID expiresAt)) = cache s"
  by (simp add: UpdateExpiresAt_def split: prod.split)

text \<open>
  Claim C1 fails on the code. In the scenario the update of the expiry succeeds, and
  afterwards the cache still holds both entries of the link: the resolution written at
  the allocation, with no expiry in it, and the sentinel. \<^verbatim>\<open>UpdateExpiresAt\<close> never
  touches the cache, where \<^verbatim>\<open>DeleteURL\<close> evicts both keys.
\<close>

theorem C1_update_keeps_stale_entries:
  "fst (UpdateExpiresAt after_create second ''promo'' (Some alice) (Some (5 * second))) = None
   \<and> map_option (\<lambda>c. present c second (url_key ''promo'')) (cache after_update) =
       Some (Some (UrlData ''https://example.com/a'' None))
   \<and> map_option (\<lambda>c. present c second (exists_key ''promo'')) (cache after_update) =
       Some (Some (Text ''taken''))"
  unfolding after_update_def after_update_eq by (simp add: present_def)

text \<open>
  Claim C5 fails on the code, by the same stale entry. At second 10 the link of the
  scenario has expired, and the store does not find it any more; yet the resolution
  returns its target from the cache and starts the goroutine, which then increments the
  click count of the expired row and appends a click event.
\<close>

theorem C5_expired_link_resolves_from_cache:
  "FindByShortCode (repo after_update) (10 * second) ''promo'' = Inl NotFoundOrExpired
   \<and> fst (GetOriginalURL after_update (10 * second) ''promo'') = Inr ''https://example.com/a''
   \<and> goroutines (snd (GetOriginalURL after_update (10 * second) ''promo'')) = [''promo'']
   \<and> map ClickCount (urls (repo (run_goroutine
         (snd (GetOriginalURL after_update (10 * second) ''promo'')) (10 * second)))) = [1]
   \<and> url_clicks (repo (run_goroutine
         (snd (GetOriginalURL after_update (10 * second) ''promo'')) (10 * second))) =
       [\<lparr>url_id = 0, clicked_at = 10 * second\<rparr>]"
  unfolding after_update_def after_update_eq
  by (simp add: GetOriginalURL_def cachedURL_def cache_defs
        FindByShortCode_def live_def run_goroutine_def IncrementClickCount_def)

section \<open>Allocation, then resolution\<close>

lemma Create_Inr:
  assumes "Create db now shortCode originalURL userID expiresAt = (Inr row, db')"
  shows "online db" and "length shortCode \<le> 10"
    and "\<forall>r \<in> set (urls db). ShortCode r \<noteq> shortCode"
    and "row = \<lparr>ID = next_id db, ShortCode = shortCode, OriginalURL = originalURL,
                 UserID = userID, ClickCount = 0, CreatedAt = now, ExpiresAt = expiresAt\<rparr>"
    and "db' = db\<lparr>urls := urls db @ [row], next_id := next_id db + 1\<rparr>"
  using assms by (auto simp: Create_def Let_def split: if_splits)








lemma CreateShortURL_Inr:
  assumes "CreateShortURL s now rnd req userID baseURL = (Inr resp, s')"
  obtains shortCode s1 row db where
    "chooseShortCode s now rnd (req_ShortCode req) = (Inr shortCode, s1)"
    "Create (repo s1) now shortCode (req_URL req) userID (req_ExpiresAt req) = (Inr row, db)"
    "s' = set_cached
            (set_cached (s1\<lparr>repo := db\<rparr>) now (exists_key shortCode) (Text ''taken'') hour)
            now (url_key shortCode) (UrlData (OriginalURL row) (ExpiresAt row)) hour"
    "resp_ShortCode resp = shortCode"
    "case req_ExpiresAt req of None \<Rightarrow> True | Some e \<Rightarrow> now - 2 * second \<le> e"
proof -
  obtain r s1 where pick: "chooseShortCode s now rnd (req_ShortCode req) = (r, s1)"
    by (cases "chooseShortCode s now rnd (req_ShortCode req)")
  have ok: "\<not> (case req_ExpiresAt req of None \<Rightarrow> False | Some e \<Rightarrow> e < now - 2 * second)"
    using assms by (auto simp: CreateShortURL_def)
  then obtain shortCode where r: "r = Inr shortCode"
    using assms pick by (cases r) (auto simp: CreateShortURL_def)
  obtain res db where cr:
    "Create (repo s1) now shortCode (req_URL req) userID (req_ExpiresAt req) = (res, db)"
    by (cases "Create (repo s1) now shortCode (req_URL req) userID (req_ExpiresAt req)")
  obtain row where res: "res = Inr row"
    using assms pick ok r cr by (cases res) (auto simp: CreateShortURL_def split: if_splits)
  have "ShortCode row = shortCode"
    using Create_Inr(4) [OF cr [unfolded res]] by simp
  then have "resp_ShortCode resp = shortCode"
    and "s' = set_cached
            (set_cached (s1\<lparr>repo := db\<rparr>) now (exists_key shortCode) (Text ''taken'') hour)
            now (url_key shortCode) (UrlData (OriginalURL row) (ExpiresAt row)) hour"
    using assms pick ok r cr res by (auto simp: CreateShortURL_def)
  moreover have "case req_ExpiresAt req of None \<Rightarrow> True | Some e \<Rightarrow> now - 2 * second \<le> e"
    using ok by (simp split: option.splits)
  ultimately show thesis
    using that pick r cr res by simp
qed

lemma up_cache_Set [simp]: "up (cache_Set c now key v ttl) = up c"
  by (simp add: cache_Set_def)












section \<open>Trimming\<close>

lemma strip_fixed:
  "find (\<lambda>w. w \<noteq> [] \<and> prefix w s) ws = None \<Longrightarrow> strip ws s = s"
  by (subst strip.simps) simp

lemma strip_Nil [simp]: "strip ws [] = []"
  by (rule strip_fixed) (simp add: find_None_iff)

lemma strip_done: "find (\<lambda>w. w \<noteq> [] \<and> prefix w (strip ws s)) ws = None"
proof (induction ws s rule: strip.induct)
  case (1 ws s)
  show ?case
  proof (cases "find (\<lambda>w. w \<noteq> [] \<and> prefix w s) ws")
    case None
    then show ?thesis by (simp add: strip_fixed)
  next
    case (Some w)
    with "1.IH" show ?thesis by (subst strip.simps) simp
  qed
qed

lemma strip_suffix: "suffix (strip ws s) s"
proof (induction ws s rule: strip.induct)
  case (1 ws s)
  show ?case
  proof (cases "find (\<lambda>w. w \<noteq> [] \<and> prefix w s) ws")
    case None
    then show ?thesis by (simp add: strip_fixed)
  next
    case (Some w)
    with "1.IH" have "suffix (strip ws (drop (length w) s)) (drop (length w) s)"
      by simp
    then have "suffix (strip ws (drop (length w) s)) s"
      using suffix_drop suffix_order.trans by blast
    with Some show ?thesis by (subst strip.simps) simp
  qed
qed

lemma strip_idem: "strip ws (strip ws s) = strip ws s"
  by (rule strip_fixed) (rule strip_done)

lemma TrimSpace_idem: "TrimSpace (TrimSpace s) = TrimSpace s"
proof -
  define t where "t = strip spaces s"
  define u where "u = strip (map rev spaces) (rev t)"
  have "suffix u (rev t)"
    unfolding u_def by (rule strip_suffix)
  then have pre: "prefix (rev u) t"
    by (metis rev_rev_ident suffix_to_prefix)
  have "find (\<lambda>w. w \<noteq> [] \<and> prefix w t) spaces = None"
    unfolding t_def by (rule strip_done)
  then have "find (\<lambda>w. w \<noteq> [] \<and> prefix w (rev u)) spaces = None"
    using pre by (auto simp: find_None_iff intro: prefix_order.trans)
  then have "strip spaces (rev u) = rev u"
    by (rule strip_fixed)
  moreover have "strip (map rev spaces) u = u"
    unfolding u_def by (rule strip_idem)
  ultimately show ?thesis
    by (simp add: TrimSpace_def flip: t_def u_def)
qed

lemma spaces_not_code_char:
  "\<forall>w \<in> set spaces. w \<noteq> [] \<and> \<not> code_char (hd w) \<and> \<not> code_char (last w)"
  by (simp add: spaces_def code_char_def)

lemma TrimSpace_code:
  assumes "list_all code_char s"
  shows "TrimSpace s = s"
proof (cases s)
  case Nil
  then show ?thesis by (simp add: TrimSpace_def)
next
  case (Cons x xs)
  have front: "find (\<lambda>w. w \<noteq> [] \<and> prefix w s) spaces = None"
  proof -
    have "\<not> prefix w s" if "w \<in> set spaces" for w
    proof
      assume "prefix w s"
      moreover from that have "w \<noteq> []" "\<not> code_char (hd w)"
        using spaces_not_code_char by auto
      ultimately have "\<not> code_char x"
        using Cons by (cases w) auto
      with assms Cons show False by simp
    qed
    then show ?thesis by (auto simp: find_None_iff)
  qed
  have rear: "find (\<lambda>w. w \<noteq> [] \<and> prefix w (rev s)) (map rev spaces) = None"
  proof -
    have "\<not> prefix (rev w) (rev s)" if "w \<in> set spaces" for w
    proof
      assume "prefix (rev w) (rev s)"
      moreover from that have "w \<noteq> []" "\<not> code_char (last w)"
        using spaces_not_code_char by auto
      moreover have "s \<noteq> []" using Cons by simp
      ultimately have "\<not> code_char (last s)"
        by (cases w rule: rev_cases; cases s rule: rev_cases) auto
      moreover have "code_char (last s)"
        using assms \<open>s \<noteq> []\<close> by (simp add: list_all_iff)
      ultimately show False by simp
    qed
    then show ?thesis by (auto simp: find_None_iff)
  qed
  show ?thesis
    by (simp add: TrimSpace_def strip_fixed [OF front] strip_fixed [OF rear])
qed

lemma spaces_prefix_free:
  "\<forall>a \<in> set spaces. \<forall>b \<in> set spaces. prefix a b \<longrightarrow> a = b"
  by (simp add: spaces_def)

lemma strip_spaces_concat:
  assumes "set ws \<subseteq> set spaces"
  shows "strip spaces (concat ws) = []"
  using assms
proof (induction ws)
  case Nil
  then show ?case by simp
next
  case (Cons w ws)
  then have w: "w \<in> set spaces" and "w \<noteq> []"
    using spaces_not_code_char by auto
  then have "\<exists>v. find (\<lambda>v. v \<noteq> [] \<and> prefix v (w @ concat ws)) spaces = Some v"
    by (cases "find (\<lambda>v. v \<noteq> [] \<and> prefix v (w @ concat ws)) spaces")
       (auto simp: find_None_iff)
  then obtain v where v: "find (\<lambda>v. v \<noteq> [] \<and> prefix v (w @ concat ws)) spaces = Some v"
    by blast
  then have "v \<in> set spaces" "prefix v (w @ concat ws)"
    by (auto simp: find_Some_iff)
  then have "prefix v w \<or> prefix w v"
    using prefix_same_cases [of v "w @ concat ws" w] by auto
  with \<open>v \<in> set spaces\<close> w have "v = w"
    using spaces_prefix_free by blast
  with v Cons show ?case
    by (subst strip.simps) simp
qed

lemma TrimSpace_blank: "set ws \<subseteq> set spaces \<Longrightarrow> TrimSpace (concat ws) = []"
  by (simp add: TrimSpace_def strip_spaces_concat)

section \<open>A custom code is trimmed first\<close>

lemma TrimSpace_Nil [simp]: "TrimSpace [] = []"
  by (simp add: TrimSpace_def)

lemma choose_trimmed:
  assumes "TrimSpace given \<noteq> []"
  shows "chooseShortCode s now rnd (Some given) = chooseShortCode s now rnd (Some (TrimSpace given))"
proof -
  from assms have "given \<noteq> []" by auto
  show ?thesis
    unfolding chooseShortCode_custom [OF \<open>given \<noteq> []\<close>] chooseShortCode_custom [OF assms]
      TrimSpace_idem by (rule refl)
qed

lemma choose_custom_Inr:
  assumes "given \<noteq> []" and "chooseShortCode s now rnd (Some given) = (Inr shortCode, s1)"
  shows "shortCode = TrimSpace given"
  using assms
  by (auto simp: chooseShortCode_custom split: option.splits sum.splits prod.splits if_splits)

lemma concat_spaces_not_Nil:
  assumes "ws \<noteq> []" and "set ws \<subseteq> set spaces"
  shows "concat ws \<noteq> []"
proof -
  from assms obtain w where "w \<in> set ws" "w \<in> set spaces"
    by (cases ws) auto
  then show ?thesis
    using spaces_not_code_char by auto
qed

text \<open>
  Claim C10. A custom code is trimmed before anything else is done with it. Allocating
  with the supplied string \<open>given\<close> is the same as allocating with \<open>TrimSpace given\<close>
  (so \<^verbatim>\<open>"  abc  "\<close> behaves as \<^verbatim>\<open>"abc"\<close>); when the allocation succeeds, the code that is
  returned and stored is the trimmed one; and a supplied string made of white space only
  fails the validation as too short, with nothing stored.
\<close>

theorem C10_custom_code_is_trimmed:
  assumes "case req_ExpiresAt req of None \<Rightarrow> True | Some e \<Rightarrow> now - 2 * second \<le> e"
  shows "(TrimSpace given \<noteq> [] \<longrightarrow>
            CreateShortURL s now rnd (req\<lparr>req_ShortCode := Some given\<rparr>) userID baseURL =
            CreateShortURL s now rnd (req\<lparr>req_ShortCode := Some (TrimSpace given)\<rparr>) userID baseURL)
       \<and> (given \<noteq> [] \<and>
            CreateShortURL s now rnd (req\<lparr>req_ShortCode := Some given\<rparr>) userID baseURL =
              (Inr resp, s') \<longrightarrow>
            resp_ShortCode resp = TrimSpace given
            \<and> (\<exists>r \<in> set (urls (repo s')). ShortCode r = TrimSpace given))
       \<and> (ws \<noteq> [] \<and> set ws \<subseteq> set spaces \<longrightarrow>
            CreateShortURL s now rnd (req\<lparr>req_ShortCode := Some (concat ws)\<rparr>) userID baseURL =
              (Inl CodeTooShort, s))"
proof -
  have trim: "CreateShortURL s now rnd (req\<lparr>req_ShortCode := Some given\<rparr>) userID baseURL =
      CreateShortURL s now rnd (req\<lparr>req_ShortCode := Some (TrimSpace given)\<rparr>) userID baseURL"
    if "TrimSpace given \<noteq> []"
    using that by (simp add: CreateShortURL_def choose_trimmed split: prod.split sum.split)
  have stored: "resp_ShortCode resp = TrimSpace given
        \<and> (\<exists>r \<in> set (urls (repo s')). ShortCode r = TrimSpace given)"
    if "given \<noteq> []"
      and alloc: "CreateShortURL s now rnd (req\<lparr>req_ShortCode := Some given\<rparr>) userID baseURL =
            (Inr resp, s')"
  proof -
    from alloc obtain shortCode s1 row db where
      pick: "chooseShortCode s now rnd (Some given) = (Inr shortCode, s1)"
      and cr: "Create (repo s1) now shortCode (req_URL req) userID (req_ExpiresAt req) = (Inr row, db)"
      and s': "s' = set_cached
              (set_cached (s1\<lparr>repo := db\<rparr>) now (exists_key shortCode) (Text ''taken'') hour)
              now (url_key shortCode) (UrlData (OriginalURL row) (ExpiresAt row)) hour"
      and code: "resp_ShortCode resp = shortCode"
      by (auto elim!: CreateShortURL_Inr)
    have trimmed: "shortCode = TrimSpace given"
      using \<open>given \<noteq> []\<close> pick by (rule choose_custom_Inr)
    have "repo s' = db"
      by (simp add: s' set_cached_def)
    moreover have "row \<in> set (urls db)" "ShortCode row = shortCode"
      using Create_Inr(4,5) [OF cr] by simp_all
    ultimately have "\<exists>r \<in> set (urls (repo s')). ShortCode r = TrimSpace given"
      using trimmed by auto
    with code trimmed show ?thesis by simp
  qed
  have blank: "CreateShortURL s now rnd (req\<lparr>req_ShortCode := Some (concat ws)\<rparr>) userID baseURL =
          (Inl CodeTooShort, s)"
    if "ws \<noteq> []" and "set ws \<subseteq> set spaces"
  proof -
    from that have "concat ws \<noteq> []"
      by (rule concat_spaces_not_Nil)
    moreover from that(2) have "TrimSpace (concat ws) = []"
      by (rule TrimSpace_blank)
    moreover have "\<not> (case req_ExpiresAt req of None \<Rightarrow> False | Some e \<Rightarrow> e < now - 2 * second)"
      using assms by (simp split: option.splits)
    ultimately show ?thesis
      by (simp add: CreateShortURL_def chooseShortCode_custom validateCustomShortCode_def)
  qed
  from trim stored blank show ?thesis
    by blast
qed

lemma trim_padded: "TrimSpace ''  promo  '' = ''promo''"
  by (simp add: TrimSpace_def spaces_def strip.simps)

theorem C10_custom_code_is_trimmed_witness:
  "CreateShortURL fresh_service 0 (\<lambda>i. None) (promo_request\<lparr>req_ShortCode := Some ''  promo  ''\<rparr>)
     (Some alice) ''https://sho.rt'' =
   CreateShortURL fresh_service 0 (\<lambda>i. None) (promo_request\<lparr>req_ShortCode := Some ''promo''\<rparr>)
     (Some alice) ''https://sho.rt''
   \<and> (\<exists>r \<in> set (urls (repo after_create)). ShortCode r = ''promo'')
   \<and> CreateShortURL fresh_service 0 (\<lambda>i. None)
       (promo_request\<lparr>req_ShortCode := Some [CHR 0x20, CHR 0x09, CHR 0x20]\<rparr>)
       (Some alice) ''https://sho.rt'' = (Inl CodeTooShort, fresh_service)"
proof -
  have padded: "CreateShortURL fresh_service 0 (\<lambda>i. None)
          (promo_request\<lparr>req_ShortCode := Some ''promo''\<rparr>) (Some alice) ''https://sho.rt'' =
        (Inr \<lparr>resp_ShortCode = ''promo'', resp_OriginalURL = ''https://example.com/a'',
              resp_ShortURL = ''https://sho.rt/promo'', resp_ExpiresAt = None,
              resp_CreatedAt = 0\<rparr>, after_create)"
    by (simp add: after_create_eq) (simp add: promo_request_def create_fresh)
  have blank: "set [[CHR 0x20], [CHR 0x09], [CHR 0x20]] \<subseteq> set spaces"
    by (simp add: spaces_def)
  show ?thesis
    using C10_custom_code_is_trimmed [where req = promo_request and now = 0
        and given = "''  promo  ''" and s = fresh_service and rnd = "\<lambda>i. None"
        and userID = "Some alice" and baseURL = "''https://sho.rt''"
        and resp = "\<lparr>resp_ShortCode = ''promo'', resp_OriginalURL = ''https://example.com/a'',
          resp_ShortURL = ''https://sho.rt/promo'', resp_ExpiresAt = None, resp_CreatedAt = 0\<rparr>"
        and s' = after_create and ws = "[[CHR 0x20], [CHR 0x09], [CHR 0x20]]"] padded blank
    by (simp add: trim_padded promo_request_def)
qed

section \<open>The table keeps its constraints\<close>

lemma well_formed_Create:
  "well_formed db \<Longrightarrow> well_formed (snd (Create db now shortCode originalURL userID expiresAt))"
  by (auto simp: well_formed_def Create_def Let_def)


lemma well_formed_Delete:
  "well_formed db \<Longrightarrow> well_formed (snd (Delete db shortCode userID))"
  by (auto simp: well_formed_def Delete_def Let_def distinct_map_filter)

lemma well_formed_Update:
  "well_formed db \<Longrightarrow> well_formed (snd (repo_UpdateExpiresAt db shortCode userID expiresAt))"
proof -
  have "ShortCode \<circ> (\<lambda>r :: url. if owned shortCode u r
            then r\<lparr>ExpiresAt := expiresAt\<rparr> else r) = ShortCode" for u
    by (auto simp: fun_eq_iff)
  then show "well_formed db \<Longrightarrow> well_formed (snd (repo_UpdateExpiresAt db shortCode userID expiresAt))"
    by (auto simp: well_formed_def repo_UpdateExpiresAt_def split: option.splits)
qed


section \<open>Allocating a custom code\<close>

lemma validate_None:
  assumes "validateCustomShortCode c = None"
  shows "3 \<le> length c" and "c \<noteq> []" and "list_all code_char c" and "TrimSpace c = c"
proof -
  from assms show "3 \<le> length c" and "list_all code_char c"
    by (auto simp: validateCustomShortCode_def split: if_splits)
  then show "c \<noteq> []" and "TrimSpace c = c"
    by (auto simp: TrimSpace_code)
qed

lemma choose_valid:
  assumes "validateCustomShortCode c = None"
  shows "chooseShortCode s now rnd (Some c) =
     (case checkShortCodeAvailability s now c of
        (Inl err, s') \<Rightarrow> (Inl (AvailabilityCheckFailed err), s')
      | (Inr available, s') \<Rightarrow>
          if \<not> available then (Inl (CodeTaken c), s') else (Inr c, s'))"
  unfolding chooseShortCode_custom [OF validate_None(2) [OF assms]]
    validate_None(4) [OF assms] assms
  by simp

lemma check_free:
  assumes "\<not> marked_taken s now c" and "online (repo s)"
    and "\<forall>r \<in> set (urls (repo s)). ShortCode r \<noteq> c"
  shows "checkShortCodeAvailability s now c =
           (Inr True, set_cached s now (exists_key c) (Text ''available'') (30 * second))"
proof -
  have "find (\<lambda>r. ShortCode r = c \<and> live now r) (urls (repo s)) = None"
    using assms(3) by (auto simp: find_None_iff)
  with assms(1,2) show ?thesis
    by (simp add: checkShortCodeAvailability_def FindByShortCode_def)
qed

lemma allocate_free:
  assumes "validateCustomShortCode c = None" and "length c \<le> 10"
    and "\<not> marked_taken s now c" and "online (repo s)"
    and "\<forall>r \<in> set (urls (repo s)). ShortCode r \<noteq> c"
    and "req_ShortCode req = Some c"
    and "case req_ExpiresAt req of None \<Rightarrow> True | Some e \<Rightarrow> now - 2 * second \<le> e"
  shows "\<exists>resp s'. CreateShortURL s now rnd req userID baseURL = (Inr resp, s')
           \<and> resp_ShortCode resp = c \<and> resp_OriginalURL resp = req_URL req
           \<and> online (repo s') \<and> (\<exists>r \<in> set (urls (repo s')). ShortCode r = c)"
proof -
  have ok: "\<not> (case req_ExpiresAt req of None \<Rightarrow> False | Some e \<Rightarrow> e < now - 2 * second)"
    using assms(7) by (simp split: option.splits)
  have pick: "chooseShortCode s now rnd (req_ShortCode req) =
      (Inr c, set_cached s now (exists_key c) (Text ''available'') (30 * second))"
    by (simp add: assms(6) choose_valid [OF assms(1)] check_free [OF assms(3,4,5)])
  have cr: "Create (repo s) now c (req_URL req) userID (req_ExpiresAt req) =
      (Inr \<lparr>ID = next_id (repo s), ShortCode = c, OriginalURL = req_URL req, UserID = userID,
            ClickCount = 0, CreatedAt = now, ExpiresAt = req_ExpiresAt req\<rparr>,
       (repo s)\<lparr>urls := urls (repo s) @
            [\<lparr>ID = next_id (repo s), ShortCode = c, OriginalURL = req_URL req, UserID = userID,
              ClickCount = 0, CreatedAt = now, ExpiresAt = req_ExpiresAt req\<rparr>],
          next_id := next_id (repo s) + 1\<rparr>)"
    using assms(2,4,5) by (simp add: Create_def Let_def)
  show ?thesis
    using ok assms(4) by (simp add: CreateShortURL_def pick set_cached_def cr)
qed

lemma allocate_taken:
  assumes "validateCustomShortCode c = None" and "length c \<le> 10"
    and "online (repo s)" and "\<exists>r \<in> set (urls (repo s)). ShortCode r = c"
    and "req_ShortCode req = Some c"
    and "case req_ExpiresAt req of None \<Rightarrow> True | Some e \<Rightarrow> now - 2 * second \<le> e"
  shows "fst (CreateShortURL s now rnd req userID baseURL) = Inl (CodeTaken c)"
proof -
  have ok: "\<not> (case req_ExpiresAt req of None \<Rightarrow> False | Some e \<Rightarrow> e < now - 2 * second)"
    using assms(6) by (simp split: option.splits)
  have dup: "Create db now c u userID e = (Inl (RepoCreateFailed UniqueViolation), db)"
    if "repo s = db" for db u e
    using that assms(2,3,4) by (auto simp: Create_def)
  show ?thesis
  proof (cases "marked_taken s now c")
    case True
    then show ?thesis
      using ok by (simp add: CreateShortURL_def assms(5) choose_valid [OF assms(1)]
          checkShortCodeAvailability_def)
  next
    case False
    show ?thesis
    proof (cases "find (\<lambda>r. ShortCode r = c \<and> live now r) (urls (repo s))")
      case None
      with False assms(3) have "checkShortCodeAvailability s now c =
          (Inr True, set_cached s now (exists_key c) (Text ''available'') (30 * second))"
        by (simp add: checkShortCodeAvailability_def FindByShortCode_def)
      then show ?thesis
        using ok by (simp add: CreateShortURL_def assms(5) choose_valid [OF assms(1)]
            dup set_cached_def)
    next
      case (Some r)
      with False assms(3) have "checkShortCodeAvailability s now c =
          (Inr False, set_cached s now (exists_key c) (Text ''taken'') hour)"
        by (simp add: checkShortCodeAvailability_def FindByShortCode_def)
      then show ?thesis
        using ok by (simp add: CreateShortURL_def assms(5) choose_valid [OF assms(1)])
    qed
  qed
qed

text \<open>
  For a valid custom code of at most ten characters that the table does not hold and the
  cache does not mark as taken, the first allocation succeeds and an immediate second one
  is refused as already taken.
\<close>

lemma allocate_twice:
  assumes "validateCustomShortCode c = None" and "length c \<le> 10"
    and "\<not> marked_taken s now c" and "online (repo s)"
    and "\<forall>r \<in> set (urls (repo s)). ShortCode r \<noteq> c"
    and "req_ShortCode req = Some c"
    and "case req_ExpiresAt req of None \<Rightarrow> True | Some e \<Rightarrow> now - 2 * second \<le> e"
  shows "\<exists>resp s'. CreateShortURL s now rnd req userID baseURL = (Inr resp, s')
           \<and> resp_ShortCode resp = c
           \<and> fst (CreateShortURL s' now rnd' req userID' baseURL') = Inl (CodeTaken c)"
proof -
  from allocate_free [OF assms] obtain resp s' where
    first: "CreateShortURL s now rnd req userID baseURL = (Inr resp, s')"
      "resp_ShortCode resp = c"
    and s': "online (repo s')" "\<exists>r \<in> set (urls (repo s')). ShortCode r = c"
    by blast
  have "fst (CreateShortURL s' now rnd' req userID' baseURL') = Inl (CodeTaken c)"
    using assms(1,2) s' assms(6,7) by (rule allocate_taken)
  with first show ?thesis by blast
qed

text \<open>
  Claim C2 fails on the code for a custom code of eleven characters: the validation
  accepts it (up to twenty characters are allowed), the column \<^verbatim>\<open>VARCHAR(10)\<close> refuses
  it, and the first allocation ends in the error ``failed to create URL''.
\<close>

theorem C2_eleven_characters:
  "validateCustomShortCode ''abcdefghijk'' = None
   \<and> fst (CreateShortURL fresh_service 0 (\<lambda>i. None)
           \<lparr>req_URL = ''https://example.com/a'', req_ExpiresAt = None,
            req_ShortCode = Some ''abcdefghijk''\<rparr> (Some alice) ''https://sho.rt'') =
       Inl (CreateFailed (RepoCreateFailed ValueTooLong))"
proof -
  have valid: "validateCustomShortCode ''abcdefghijk'' = None"
    by (simp add: validateCustomShortCode_def code_char_def reservedCodes_def ToLower_def
          lower_char_def)
  have free: "checkShortCodeAvailability fresh_service 0 ''abcdefghijk'' =
      (Inr True, set_cached fresh_service 0 (exists_key ''abcdefghijk'') (Text ''available'')
                   (30 * second))"
    by (rule check_free) (simp_all add: fresh_service_def NewURLService_def marked_taken_def
          cache_defs)
  show ?thesis
    by (simp add: valid CreateShortURL_def choose_valid [OF valid] free)
       (simp add: set_cached_def fresh_service_def NewURLService_def Create_def)
qed

section \<open>Deleting frees the code\<close>




lemma evicted_not_marked:
  assumes "cache s' = map_option (\<lambda>c. cache_Delete (cache_Delete c (url_key shortCode))
                                   (exists_key shortCode)) (cache s)"
  shows "\<not> marked_taken s' now shortCode"
  using assms
  by (cases "cache s")
     (auto simp: marked_taken_def cache_Exists_def cache_Delete_def present_def
        split: sum.splits bool.splits)











section \<open>Generated codes\<close>

lemma encodeURL_chars: "length encodeURL = 64" "list_all code_char encodeURL"
  by (simp_all add: encodeURL_def code_char_def)

lemma code_char_enc: "code_char (enc val)"
  using encodeURL_chars by (simp add: enc_def list_all_length)

lemma generated_code:
  "generateShortCode (Some (b0, b1, b2, b3, b4, b5)) = Inr (EncodeToString [b0, b1, b2, b3, b4, b5])"
  "length (EncodeToString [b0, b1, b2, b3, b4, b5]) = 8"
  "list_all code_char (EncodeToString [b0, b1, b2, b3, b4, b5])"
  by (simp_all add: generateShortCode_def Let_def code_char_enc)


section \<open>The availability check during the retries\<close>



lemma repo_set_cached [simp]: "repo (set_cached s now key v ttl) = repo s"
  by (simp add: set_cached_def)



section \<open>The retry loop\<close>




section \<open>Allocation without a custom code\<close>






end
